theory Spec2Isabelle
  imports Main
begin

section \<open>Tokens (tokens.go)\<close>

text \<open>
  \<^verbatim>\<open>TokenType\<close> is the enumeration declared with \<^verbatim>\<open>iota\<close>; only the fifteen
  declared constants are modelled.
\<close>

datatype TokenType =
    TokenEOF
  | TokenName
  | TokenAsterisk
  | TokenSlash
  | TokenPlus
  | TokenMinus
  | TokenCaret
  | TokenTilde
  | TokenAssignment
  | TokenQuestion
  | TokenExclamation
  | TokenParenL
  | TokenParenR
  | TokenColon
  | TokenComma

text \<open>The map literal \<^verbatim>\<open>tokenNames\<close>; it has no entry for \<^verbatim>\<open>TokenName\<close>.\<close>

definition tokenNames :: "TokenType \<rightharpoonup> string" where
  "tokenNames = map_of
     [(TokenEOF, ''EOF''),
      (TokenAsterisk, ''*''),
      (TokenSlash, ''/''),
      (TokenPlus, ''+''),
      (TokenMinus, ''-''),
      (TokenCaret, ''^''),
      (TokenTilde, ''~''),
      (TokenAssignment, ''=''),
      (TokenQuestion, ''?''),
      (TokenExclamation, ''!''),
      (TokenParenL, ''(''),
      (TokenParenR, '')''),
      (TokenColon, '':''),
      (TokenComma, '','')]"

text \<open>
  \<^verbatim>\<open>func (t TokenType) String() string\<close>. For a type without a name the method
  evaluates \<^verbatim>\<open>fmt.Sprintf("<%s>", t)\<close>, and \<^verbatim>\<open>%s\<close> formats a value that has a
  \<^verbatim>\<open>String\<close> method by calling it: the method calls itself on the same
  receiver. The recursion is kept as it is written; \<open>None\<close> is "does not return".
\<close>

partial_function (option) TokenType_String :: "TokenType \<Rightarrow> string option" where
  [code]: "TokenType_String t =
     (case tokenNames t of
        Some s \<Rightarrow> Some s
      | None \<Rightarrow> Option.bind (TokenType_String t) (\<lambda>s. Some (''<'' @ s @ ''>'')))"

record Token =
  Type :: TokenType
  Text :: string

text \<open>\<^verbatim>\<open>func (t Token) String() string\<close>\<close>

definition Token_String :: "Token \<Rightarrow> string" where
  "Token_String t = (case tokenNames (Type t) of Some s \<Rightarrow> s | None \<Rightarrow> Text t)"

text \<open>The zero value of \<^verbatim>\<open>Token\<close>, as \<^verbatim>\<open>make([]Token, n)\<close> fills a slice.\<close>

definition zero_Token :: Token where
  "zero_Token = \<lparr>Type = TokenEOF, Text = []\<rparr>"

section \<open>Values a panic can carry\<close>

text \<open>
  The code panics with strings (\<^verbatim>\<open>panic(fmt.Sprintf(...))\<close>); \<^verbatim>\<open>Parser.recover\<close>
  tells apart values that are a \<^verbatim>\<open>runtime.Error\<close>, values that are an \<^verbatim>\<open>error\<close>,
  and the rest.
\<close>

datatype PanicValue =
    StringValue string
  | ErrorValue string
  | RuntimeError string

section \<open>The lookahead stack (lexer.go)\<close>

text \<open>
  \<^verbatim>\<open>Lexer\<close> is an interface with the one method \<^verbatim>\<open>Next() Token\<close>. An interface
  value is modelled as the state of the implementation together with its method, which
  returns the token and the new state.
\<close>

record 'l Lexer =
  lexer_self :: 'l
  lexer_Next :: "'l \<Rightarrow> Token \<times> 'l"

definition Next :: "'l Lexer \<Rightarrow> Token \<times> 'l Lexer" where
  "Next lx = (case lexer_Next lx (lexer_self lx) of (t, st) \<Rightarrow> (t, lx\<lparr>lexer_self := st\<rparr>))"

record 'l Stack =
  lexer :: "'l Lexer"
  tokens :: "Token list"
  count :: nat

definition NewStack :: "'l Lexer \<Rightarrow> 'l Stack" where
  "NewStack lx = \<lparr>lexer = lx, tokens = [], count = 0\<rparr>"

text \<open>
  \<^verbatim>\<open>s.tokens = append(s.tokens[:s.count], t...); s.count += len(t)\<close>.
  Every state built from \<^verbatim>\<open>NewStack\<close> has \<^verbatim>\<open>count <= len(tokens)\<close> (see
  \<open>stack_inv\<close> below), where the reslice is \<open>take\<close>.
\<close>

definition Push :: "'l Stack \<Rightarrow> Token list \<Rightarrow> 'l Stack" where
  "Push s t = s\<lparr>tokens := take (count s) (tokens s) @ t, count := count s + length t\<rparr>"

text \<open>
  \<^verbatim>\<open>if s.count == 0 { return s.lexer.Next() }; s.count--; return s.tokens[s.count]\<close>
\<close>

definition Pop :: "'l Stack \<Rightarrow> Token \<times> 'l Stack" where
  "Pop s =
     (if count s = 0 then
        (case Next (lexer s) of (t, lx) \<Rightarrow> (t, s\<lparr>lexer := lx\<rparr>))
      else
        (tokens s ! (count s - 1), s\<lparr>count := count s - 1\<rparr>))"

text \<open>
  The loop of \<^verbatim>\<open>Peek\<close>: \<^verbatim>\<open>for index >= 0 { t[index] = s.Pop(); index-- }\<close>.
  The first argument is \<^verbatim>\<open>index\<close>; the iteration at \<^verbatim>\<open>index = 0\<close> is the last.
\<close>

fun Peek_loop :: "nat \<Rightarrow> Token list \<Rightarrow> 'l Stack \<Rightarrow> Token list \<times> 'l Stack" where
  "Peek_loop 0 t s = (case Pop s of (x, s1) \<Rightarrow> (t[0 := x], s1))"
| "Peek_loop (Suc i) t s = (case Pop s of (x, s1) \<Rightarrow> Peek_loop i (t[Suc i := x]) s1)"

text \<open>\<^verbatim>\<open>func (s *Stack) Peek(index int) Token\<close>; \<open>Inl\<close> is the panic.\<close>

definition Peek :: "'l Stack \<Rightarrow> int \<Rightarrow> (PanicValue + Token) \<times> 'l Stack" where
  "Peek s index =
     (if index = 0 then
        (case Pop s of (t, s1) \<Rightarrow> (Inr t, Push s1 [t]))
      else if index > 0 then
        (if index < int (count s) then (Inr (tokens s ! nat index), s)
         else
           (case Peek_loop (nat index) (replicate (nat index + 1) zero_Token) s of
              (t, s1) \<Rightarrow> (Inr (t ! 0), Push s1 t)))
      else (Inl (StringValue ''Peek received negative index''), s))"

text \<open>
  \<^verbatim>\<open>%s\<close> applied to a \<^verbatim>\<open>[]TokenType\<close>: the elements' \<^verbatim>\<open>String()\<close> results,
  separated by spaces, in square brackets.
\<close>

fun join_strings :: "string \<Rightarrow> string list \<Rightarrow> string" where
  "join_strings sep [] = []"
| "join_strings sep [x] = x"
| "join_strings sep (x # y # ys) = x @ sep @ join_strings sep (y # ys)"

fun TokenTypes_Strings :: "TokenType list \<Rightarrow> string list option" where
  "TokenTypes_Strings [] = Some []"
| "TokenTypes_Strings (e # es) =
     Option.bind (TokenType_String e) (\<lambda>x.
       Option.bind (TokenTypes_Strings es) (\<lambda>xs. Some (x # xs)))"

definition TokenTypes_String :: "TokenType list \<Rightarrow> string option" where
  "TokenTypes_String es =
     Option.bind (TokenTypes_Strings es) (\<lambda>xs. Some (''['' @ join_strings '' '' xs @ '']''))"

text \<open>\<^verbatim>\<open>fmt.Sprintf("expected token %s and found %s", expected, t.Type)\<close>\<close>

definition Expect_message :: "TokenType list \<Rightarrow> TokenType \<Rightarrow> string option" where
  "Expect_message expected ty =
     Option.bind (TokenTypes_String expected) (\<lambda>e.
       Option.bind (TokenType_String ty) (\<lambda>f.
         Some (''expected token '' @ e @ '' and found '' @ f)))"

text \<open>
  \<^verbatim>\<open>func (s *Stack) Expect(expected ...TokenType) Token\<close>. The \<^verbatim>\<open>switch\<close> on
  \<^verbatim>\<open>len(expected)\<close> and the \<^verbatim>\<open>range\<close> loop are kept; \<open>None\<close> is "does not
  return" (the message of the panic is never built), \<open>Inl\<close> the panic.
\<close>

fun Expect_range :: "TokenType list \<Rightarrow> Token \<Rightarrow> bool" where
  "Expect_range [] t = False"
| "Expect_range (e # es) t = (if Type t = e then True else Expect_range es t)"

definition Expect :: "'l Stack \<Rightarrow> TokenType list \<Rightarrow> ((PanicValue + Token) \<times> 'l Stack) option" where
  "Expect s expected =
     (case Pop s of (t, s1) \<Rightarrow>
        if (if length expected = 1 then Type t = expected ! 0 else Expect_range expected t)
        then Some (Inr t, s1)
        else
          (let s2 = Push s1 [t] in
           case Expect_message expected (Type t) of
             None \<Rightarrow> None
           | Some msg \<Rightarrow> Some (Inl (StringValue msg), s2)))"

text \<open>\<^verbatim>\<open>func (s *Stack) Match(expected TokenType) bool\<close>\<close>

definition Match :: "'l Stack \<Rightarrow> TokenType \<Rightarrow> bool \<times> 'l Stack" where
  "Match s expected =
     (case Pop s of (t, s1) \<Rightarrow>
        if Type t \<noteq> expected then (False, Push s1 [t]) else (True, s1))"

section \<open>Expression nodes (nodes.go)\<close>

text \<open>
  The implementations of the interface \<^verbatim>\<open>Node\<close>. A \<^verbatim>\<open>*ListNode\<close> field is the
  list of its \<^verbatim>\<open>Nodes\<close>.
\<close>

datatype Node =
    AssignNode string Node
  | BinaryNode Node TokenType Node
  | FunctionNode Node "Node list"
  | ListNode "Node list"
  | NameNode string
  | TernaryNode Node "Node list" "Node list"
  | UnaryNode TokenType Node
  | UnaryPostfixNode Node TokenType

text \<open>\<^verbatim>\<open>func listNode(n Node) *ListNode\<close>\<close>

definition listNode :: "Node \<Rightarrow> Node list" where
  "listNode n = (case n of ListNode ns \<Rightarrow> ns | _ \<Rightarrow> [n])"

text \<open>All results of a list of renderings, or \<open>None\<close> when one does not return.\<close>

fun all_strings :: "string option list \<Rightarrow> string list option" where
  "all_strings [] = Some []"
| "all_strings (x # xs) =
     (case x of
        None \<Rightarrow> None
      | Some y \<Rightarrow> (case all_strings xs of None \<Rightarrow> None | Some ys \<Rightarrow> Some (y # ys)))"

text \<open>
  The \<^verbatim>\<open>String()\<close> methods of the nodes. An operator is formatted with \<^verbatim>\<open>%s\<close>,
  that is by \<^verbatim>\<open>TokenType.String\<close>, so a rendering is a \<open>string option\<close> too.
\<close>

fun Node_String :: "Node \<Rightarrow> string option" where
  "Node_String (AssignNode name right) =
     Option.bind (Node_String right) (\<lambda>r.
       Some (''('' @ name @ '' = '' @ r @ '')''))"
| "Node_String (BinaryNode left operator right) =
     Option.bind (Node_String left) (\<lambda>l.
       Option.bind (TokenType_String operator) (\<lambda>op.
         Option.bind (Node_String right) (\<lambda>r.
           Some (''('' @ l @ '' '' @ op @ '' '' @ r @ '')''))))"
| "Node_String (FunctionNode function args) =
     Option.bind (all_strings (map Node_String args)) (\<lambda>b.
       Option.bind (Node_String function) (\<lambda>f.
         Some (f @ ''('' @ join_strings '', '' b @ '')'')))"
| "Node_String (ListNode nodes) =
     Option.bind (all_strings (map Node_String nodes)) (\<lambda>b. Some (concat b))"
| "Node_String (NameNode name) = Some name"
| "Node_String (TernaryNode condition list elseList) =
     Option.bind (Node_String condition) (\<lambda>c.
       Option.bind (all_strings (map Node_String list)) (\<lambda>l.
         Option.bind (all_strings (map Node_String elseList)) (\<lambda>e.
           Some (''('' @ c @ '' ? '' @ concat l @ '' : '' @ concat e @ '')''))))"
| "Node_String (UnaryNode operator right) =
     Option.bind (TokenType_String operator) (\<lambda>op.
       Option.bind (Node_String right) (\<lambda>r.
         Some (''('' @ op @ r @ '')'')))"
| "Node_String (UnaryPostfixNode left operator) =
     Option.bind (Node_String left) (\<lambda>l.
       Option.bind (TokenType_String operator) (\<lambda>op.
         Some (''('' @ l @ op @ '')'')))"

section \<open>The parser (bantam.go)\<close>

text \<open>
  The implementations of the interfaces \<^verbatim>\<open>PrefixParser\<close> and \<^verbatim>\<open>InfixParser\<close>;
  each is a named \<^verbatim>\<open>int\<close>.
\<close>

datatype PrefixParser =
    NameParser int
  | GroupParser int
  | UnaryParser int

datatype InfixParser =
    AssignParser int
  | TernaryParser int
  | BinaryParser int
  | BinaryRightParser int
  | UnaryPostfixParser int
  | FunctionParser int

text \<open>The \<^verbatim>\<open>Precedence()\<close> methods: each returns \<^verbatim>\<open>int(p)\<close>.\<close>

fun Precedence :: "InfixParser \<Rightarrow> int" where
  "Precedence (AssignParser p) = p"
| "Precedence (TernaryParser p) = p"
| "Precedence (BinaryParser p) = p"
| "Precedence (BinaryRightParser p) = p"
| "Precedence (UnaryPostfixParser p) = p"
| "Precedence (FunctionParser p) = p"

text \<open>The package-level variables \<^verbatim>\<open>PrefixParsers\<close> and \<^verbatim>\<open>InfixParsers\<close>.\<close>

definition PrefixParsers :: "TokenType \<rightharpoonup> PrefixParser" where
  "PrefixParsers = map_of
     [(TokenName, NameParser 0),
      (TokenParenL, GroupParser 0),
      (TokenPlus, UnaryParser 6),
      (TokenMinus, UnaryParser 6),
      (TokenTilde, UnaryParser 6),
      (TokenExclamation, UnaryParser 6)]"

definition InfixParsers :: "TokenType \<rightharpoonup> InfixParser" where
  "InfixParsers = map_of
     [(TokenAssignment, AssignParser 1),
      (TokenQuestion, TernaryParser 2),
      (TokenPlus, BinaryParser 3),
      (TokenMinus, BinaryParser 3),
      (TokenAsterisk, BinaryParser 4),
      (TokenSlash, BinaryParser 4),
      (TokenCaret, BinaryRightParser 5),
      (TokenExclamation, UnaryPostfixParser 7),
      (TokenParenL, FunctionParser 8)]"

text \<open>
  \<^verbatim>\<open>type Parser struct { *Stack; PrefixParsers ...; InfixParsers ... }\<close>. The two
  maps are never assigned after construction; the stack is the state that parsing
  changes, so every operation below takes the parser and returns the new stack.
\<close>

record 'l Parser =
  Parser_Stack :: "'l Stack"
  Parser_PrefixParsers :: "TokenType \<rightharpoonup> PrefixParser"
  Parser_InfixParsers :: "TokenType \<rightharpoonup> InfixParser"

definition NewParser :: "'l Stack \<Rightarrow> 'l Parser" where
  "NewParser stack =
     \<lparr>Parser_Stack = stack, Parser_PrefixParsers = Map.empty, Parser_InfixParsers = Map.empty\<rparr>"

text \<open>
  The outcome of an operation that may panic or not return: \<open>None\<close> when it does not
  return within the fuel given, \<open>Inl\<close> the value of the panic, \<open>Inr\<close> the result;
  the stack is returned in both cases.
\<close>

type_synonym ('a, 'l) outcome = "((PanicValue + 'a) \<times> 'l Stack) option"

text \<open>\<^verbatim>\<open>func (p *Parser) errorf(format string, args ...interface{})\<close>: a panic with the
  formatted string.\<close>

definition errorf :: "string \<Rightarrow> PanicValue" where
  "errorf msg = StringValue msg"

text \<open>\<^verbatim>\<open>func (p *Parser) precedence() int\<close>\<close>

definition Parser_precedence :: "'l Parser \<Rightarrow> (PanicValue + int) \<times> 'l Stack" where
  "Parser_precedence p =
     (case Peek (Parser_Stack p) 0 of
        (Inl e, s1) \<Rightarrow> (Inl e, s1)
      | (Inr t, s1) \<Rightarrow>
          (case Parser_InfixParsers p (Type t) of
             Some parser \<Rightarrow> (Inr (Precedence parser), s1)
           | None \<Rightarrow> (Inr 0, s1)))"

text \<open>
  \<^verbatim>\<open>parseExpression\<close>, its \<^verbatim>\<open>for\<close> loop, the \<^verbatim>\<open>Parse\<close> methods of the prefix and
  infix parsers, and the argument loop of \<^verbatim>\<open>FunctionParser.Parse\<close>. They call each
  other, and on an endless token source the recursion need not end: the first argument
  bounds the depth of calls and iterations.
\<close>

function (sequential) parseExpression :: "nat \<Rightarrow> 'l Parser \<Rightarrow> int \<Rightarrow> (Node, 'l) outcome"
  and parseExpression_loop :: "nat \<Rightarrow> 'l Parser \<Rightarrow> int \<Rightarrow> Node \<Rightarrow> (Node, 'l) outcome"
  and PrefixParser_Parse :: "nat \<Rightarrow> PrefixParser \<Rightarrow> 'l Parser \<Rightarrow> Token \<Rightarrow> (Node, 'l) outcome"
  and InfixParser_Parse :: "nat \<Rightarrow> InfixParser \<Rightarrow> 'l Parser \<Rightarrow> Node \<Rightarrow> Token \<Rightarrow> (Node, 'l) outcome"
  and FunctionParser_args :: "nat \<Rightarrow> 'l Parser \<Rightarrow> Node list \<Rightarrow> (Node list, 'l) outcome"
where
  "parseExpression 0 p precedence = None"
| "parseExpression (Suc k) p precedence =
     (case Pop (Parser_Stack p) of (token, s1) \<Rightarrow>
        (case PrefixParsers (Type token) of
           None \<Rightarrow> Some (Inl (errorf (''could not parse '' @ Token_String token)), s1)
         | Some prefix \<Rightarrow>
             (case PrefixParser_Parse k prefix (p\<lparr>Parser_Stack := s1\<rparr>) token of
                None \<Rightarrow> None
              | Some (Inl e, s2) \<Rightarrow> Some (Inl e, s2)
              | Some (Inr left, s2) \<Rightarrow>
                  parseExpression_loop k (p\<lparr>Parser_Stack := s2\<rparr>) precedence left)))"
| "parseExpression_loop 0 p precedence left = None"
| "parseExpression_loop (Suc k) p precedence left =
     (case Parser_precedence p of
        (Inl e, s1) \<Rightarrow> Some (Inl e, s1)
      | (Inr next, s1) \<Rightarrow>
          if precedence < next then
            (case Pop s1 of (token, s2) \<Rightarrow>
               (case Parser_InfixParsers p (Type token) of
                  None \<Rightarrow> Some (Inl (errorf (''could not parse '' @ Token_String token)), s2)
                | Some infix \<Rightarrow>
                    (case InfixParser_Parse k infix (p\<lparr>Parser_Stack := s2\<rparr>) left token of
                       None \<Rightarrow> None
                     | Some (Inl e, s3) \<Rightarrow> Some (Inl e, s3)
                     | Some (Inr left', s3) \<Rightarrow>
                         parseExpression_loop k (p\<lparr>Parser_Stack := s3\<rparr>) precedence left')))
          else Some (Inr left, s1))"
| "PrefixParser_Parse 0 prefix p token = None"
| "PrefixParser_Parse (Suc k) (NameParser pw) p token =
     Some (Inr (NameNode (Text token)), Parser_Stack p)"
| "PrefixParser_Parse (Suc k) (GroupParser pw) p token =
     (case parseExpression k p pw of
        None \<Rightarrow> None
      | Some (Inl e, s1) \<Rightarrow> Some (Inl e, s1)
      | Some (Inr n, s1) \<Rightarrow>
          (case Expect s1 [TokenParenR] of
             None \<Rightarrow> None
           | Some (Inl e, s2) \<Rightarrow> Some (Inl e, s2)
           | Some (Inr t, s2) \<Rightarrow> Some (Inr n, s2)))"
| "PrefixParser_Parse (Suc k) (UnaryParser pw) p token =
     (case parseExpression k p pw of
        None \<Rightarrow> None
      | Some (Inl e, s1) \<Rightarrow> Some (Inl e, s1)
      | Some (Inr right, s1) \<Rightarrow> Some (Inr (UnaryNode (Type token) right), s1))"
| "InfixParser_Parse 0 infix p left token = None"
| "InfixParser_Parse (Suc k) (UnaryPostfixParser pw) p left token =
     Some (Inr (UnaryPostfixNode left (Type token)), Parser_Stack p)"
| "InfixParser_Parse (Suc k) (AssignParser pw) p left token =
     (case left of
        NameNode name \<Rightarrow>
          (case parseExpression k p (pw - 1) of
             None \<Rightarrow> None
           | Some (Inl e, s1) \<Rightarrow> Some (Inl e, s1)
           | Some (Inr right, s1) \<Rightarrow> Some (Inr (AssignNode name right), s1))
      | _ \<Rightarrow>
          Some (Inl (errorf ''the left-hand side of an assignment must be a name''),
                Parser_Stack p))"
| "InfixParser_Parse (Suc k) (FunctionParser pw) p left token =
     (case Match (Parser_Stack p) TokenParenR of
        (True, s1) \<Rightarrow> Some (Inr (FunctionNode left []), s1)
      | (False, s1) \<Rightarrow>
          (case FunctionParser_args k (p\<lparr>Parser_Stack := s1\<rparr>) [] of
             None \<Rightarrow> None
           | Some (Inl e, s2) \<Rightarrow> Some (Inl e, s2)
           | Some (Inr args, s2) \<Rightarrow>
               (case Expect s2 [TokenParenR] of
                  None \<Rightarrow> None
                | Some (Inl e, s3) \<Rightarrow> Some (Inl e, s3)
                | Some (Inr t, s3) \<Rightarrow> Some (Inr (FunctionNode left args), s3))))"
| "InfixParser_Parse (Suc k) (BinaryParser pw) p left token =
     (case parseExpression k p pw of
        None \<Rightarrow> None
      | Some (Inl e, s1) \<Rightarrow> Some (Inl e, s1)
      | Some (Inr right, s1) \<Rightarrow> Some (Inr (BinaryNode left (Type token) right), s1))"
| "InfixParser_Parse (Suc k) (BinaryRightParser pw) p left token =
     (case parseExpression k p (pw - 1) of
        None \<Rightarrow> None
      | Some (Inl e, s1) \<Rightarrow> Some (Inl e, s1)
      | Some (Inr right, s1) \<Rightarrow> Some (Inr (BinaryNode left (Type token) right), s1))"
| "InfixParser_Parse (Suc k) (TernaryParser pw) p left token =
     (case parseExpression k p 0 of
        None \<Rightarrow> None
      | Some (Inl e, s1) \<Rightarrow> Some (Inl e, s1)
      | Some (Inr node, s1) \<Rightarrow>
          (case Expect s1 [TokenColon] of
             None \<Rightarrow> None
           | Some (Inl e, s2) \<Rightarrow> Some (Inl e, s2)
           | Some (Inr t, s2) \<Rightarrow>
               (case parseExpression k (p\<lparr>Parser_Stack := s2\<rparr>) (pw - 1) of
                  None \<Rightarrow> None
                | Some (Inl e, s3) \<Rightarrow> Some (Inl e, s3)
                | Some (Inr elseNode, s3) \<Rightarrow>
                    Some (Inr (TernaryNode left (listNode node) (listNode elseNode)), s3))))"
| "FunctionParser_args 0 p args = None"
| "FunctionParser_args (Suc k) p args =
     (case parseExpression k p 0 of
        None \<Rightarrow> None
      | Some (Inl e, s1) \<Rightarrow> Some (Inl e, s1)
      | Some (Inr a, s1) \<Rightarrow>
          (case Match s1 TokenComma of
             (True, s2) \<Rightarrow> FunctionParser_args k (p\<lparr>Parser_Stack := s2\<rparr>) (args @ [a])
           | (False, s2) \<Rightarrow> Some (Inr (args @ [a]), s2)))"
  by pat_completeness auto
termination
  by (relation "measure (\<lambda>x. case x of
        Inl (Inl a) \<Rightarrow> fst a
      | Inl (Inr a) \<Rightarrow> fst a
      | Inr (Inl a) \<Rightarrow> fst a
      | Inr (Inr (Inl a)) \<Rightarrow> fst a
      | Inr (Inr (Inr a)) \<Rightarrow> fst a)") auto

text \<open>
  \<^verbatim>\<open>func (p *Parser) recover(err *error)\<close>, applied to the value of a panic: a
  \<^verbatim>\<open>runtime.Error\<close> is panicked again; otherwise \<^verbatim>\<open>*err = e.(error)\<close>, a type
  assertion that itself panics with a \<^verbatim>\<open>runtime.Error\<close> when the value is not an
  \<^verbatim>\<open>error\<close>. The result is the pair \<^verbatim>\<open>(n, err)\<close> that \<^verbatim>\<open>Parse\<close> returns, with
  \<open>None\<close> for \<^verbatim>\<open>nil\<close>.
\<close>

definition Parser_recover :: "PanicValue \<Rightarrow> PanicValue + (Node option \<times> string option)" where
  "Parser_recover e =
     (case e of
        RuntimeError m \<Rightarrow> Inl (RuntimeError m)
      | ErrorValue m \<Rightarrow> Inr (None, Some m)
      | StringValue m \<Rightarrow>
          Inl (RuntimeError ''interface conversion: interface {} is string, not error''))"

text \<open>
  \<^verbatim>\<open>func (p *Parser) Parse() (n Node, err error)\<close>:
  \<^verbatim>\<open>defer p.recover(&err); return p.parseExpression(0), nil\<close>
\<close>

definition Parse :: "nat \<Rightarrow> 'l Parser \<Rightarrow> (Node option \<times> string option, 'l) outcome" where
  "Parse fuel p =
     (case parseExpression fuel p 0 of
        None \<Rightarrow> None
      | Some (Inr n, s) \<Rightarrow> Some (Inr (Some n, None), s)
      | Some (Inl e, s) \<Rightarrow> Some (Parser_recover e, s))"

section \<open>The lexer of the tests (bantam\_test.go)\<close>

record test_lexer =
  src :: string
  pos :: nat

definition stringToToken :: "string \<rightharpoonup> TokenType" where
  "stringToToken = map_of
     [(''*'', TokenAsterisk),
      (''/'', TokenSlash),
      (''+'', TokenPlus),
      (''-'', TokenMinus),
      (''^'', TokenCaret),
      (''~'', TokenTilde),
      (''='', TokenAssignment),
      (''?'', TokenQuestion),
      (''!'', TokenExclamation),
      (''('', TokenParenL),
      ('')'', TokenParenR),
      ('':'', TokenColon),
      ('','', TokenComma)]"

text \<open>\<^verbatim>\<open>func (l *lexer) Next() Token\<close>, on sources of one-byte characters.\<close>

function test_lexer_Next :: "test_lexer \<Rightarrow> Token \<times> test_lexer" where
  "test_lexer_Next l =
     (if pos l < length (src l) then
        (let s = [src l ! pos l]; l1 = l\<lparr>pos := pos l + 1\<rparr> in
         if s = '' '' then test_lexer_Next l1
         else
           (case stringToToken s of
              Some t \<Rightarrow> (\<lparr>Type = t, Text = []\<rparr>, l1)
            | None \<Rightarrow> (\<lparr>Type = TokenName, Text = s\<rparr>, l1)))
      else (\<lparr>Type = TokenEOF, Text = []\<rparr>, l))"
  by pat_completeness auto
termination
  by (relation "measure (\<lambda>l. length (src l) - pos l)") auto

declare test_lexer_Next.simps [simp del]

text \<open>\<^verbatim>\<open>&lexer{src: source}\<close> as a value of the interface \<^verbatim>\<open>Lexer\<close>.\<close>

definition test_Lexer :: "string \<Rightarrow> test_lexer Lexer" where
  "test_Lexer source =
     \<lparr>lexer_self = \<lparr>src = source, pos = 0\<rparr>, lexer_Next = test_lexer_Next\<rparr>"

text \<open>
  The set-up of \<^verbatim>\<open>TestParser\<close>:
  \<^verbatim>\<open>s := &Stack{lexer: l}; p := &Parser{s, PrefixParsers, InfixParsers}\<close>
\<close>

definition test_Parser :: "string \<Rightarrow> test_lexer Parser" where
  "test_Parser source =
     \<lparr>Parser_Stack = \<lparr>lexer = test_Lexer source, tokens = [], count = 0\<rparr>,
      Parser_PrefixParsers = PrefixParsers,
      Parser_InfixParsers = InfixParsers\<rparr>"

text \<open>What the test compares: the rendering of the node that \<^verbatim>\<open>Parse\<close> returns.\<close>

definition test_render :: "nat \<Rightarrow> string \<Rightarrow> string option" where
  "test_render fuel source =
     (case Parse fuel (test_Parser source) of
        Some (Inr (Some n, None), s) \<Rightarrow> Node_String n
      | _ \<Rightarrow> None)"

section \<open>Observations of a stack\<close>

text \<open>The results of \<open>n\<close> consecutive calls of \<^verbatim>\<open>Next\<close> and of \<^verbatim>\<open>Pop\<close>.\<close>

fun Next_n :: "nat \<Rightarrow> 'l Lexer \<Rightarrow> Token list \<times> 'l Lexer" where
  "Next_n 0 lx = ([], lx)"
| "Next_n (Suc n) lx =
     (case Next lx of (t, lx1) \<Rightarrow>
        (case Next_n n lx1 of (ts, lx2) \<Rightarrow> (t # ts, lx2)))"

fun Pop_n :: "nat \<Rightarrow> 'l Stack \<Rightarrow> Token list \<times> 'l Stack" where
  "Pop_n 0 s = ([], s)"
| "Pop_n (Suc n) s =
     (case Pop s of (t, s1) \<Rightarrow>
        (case Pop_n n s1 of (ts, s2) \<Rightarrow> (t # ts, s2)))"

text \<open>
  The invariant of the two fields \<^verbatim>\<open>tokens\<close> and \<^verbatim>\<open>count\<close>: it holds of
  \<^verbatim>\<open>NewStack\<close> and of the zero value used by the tests, and every method keeps it.
\<close>

definition stack_inv :: "'l Stack \<Rightarrow> bool" where
  "stack_inv s = (count s \<le> length (tokens s))"

text \<open>
  Sequences of buffer operations. A run keeps the log of the tokens consumed so far: a
  pop appends its token, a peek leaves the log alone, and a push of \<open>ts\<close> takes the
  last \<open>length ts\<close> tokens off the log again. The first argument says which pushes
  are allowed after a given log; a run that meets another push has no result.
\<close>

datatype buffer_op = OpPop | OpPeek nat | OpPush "Token list"

fun run_ops ::
  "(Token list \<Rightarrow> Token list \<Rightarrow> bool) \<Rightarrow> buffer_op list \<Rightarrow> 'l Stack \<times> Token list
     \<Rightarrow> ('l Stack \<times> Token list) option" where
  "run_ops allowed [] (s, log) = Some (s, log)"
| "run_ops allowed (OpPop # ops) (s, log) =
     (case Pop s of (t, s1) \<Rightarrow> run_ops allowed ops (s1, log @ [t]))"
| "run_ops allowed (OpPeek i # ops) (s, log) =
     (case Peek s (int i) of (r, s1) \<Rightarrow> run_ops allowed ops (s1, log))"
| "run_ops allowed (OpPush ts # ops) (s, log) =
     (if allowed log ts
      then run_ops allowed ops (Push s ts, take (length log - length ts) log)
      else None)"

text \<open>
  Two readings of "the push restores tokens previously obtained by pop": the tokens
  last popped, passed in the order in which they were popped, and the same tokens
  passed in the reverse order (the one popped last comes first).
\<close>

definition restores_in_pop_order :: "Token list \<Rightarrow> Token list \<Rightarrow> bool" where
  "restores_in_pop_order log ts =
     (length ts \<le> length log \<and> drop (length log - length ts) log = ts)"

definition restores_in_reverse_order :: "Token list \<Rightarrow> Token list \<Rightarrow> bool" where
  "restores_in_reverse_order log ts =
     (length ts \<le> length log \<and> drop (length log - length ts) log = rev ts)"

section \<open>Rendering of token types\<close>

lemma TokenType_String_named: "tokenNames t = Some nm \<Longrightarrow> TokenType_String t = Some nm"
  by (subst TokenType_String.simps) simp

lemma TokenType_String_Some_named: "TokenType_String t = Some y \<Longrightarrow> tokenNames t \<noteq> None"
proof (rule TokenType_String.raw_induct [where P = "\<lambda>t y. tokenNames t \<noteq> None"])
  fix f t y
  assume IH: "\<And>x y. f x = Some y \<Longrightarrow> tokenNames x \<noteq> None"
    and F: "(case tokenNames t of
               Some s \<Rightarrow> Some s
             | None \<Rightarrow> Option.bind (f t) (\<lambda>s. Some (''<'' @ s @ ''>''))) = Some y"
  show "tokenNames t \<noteq> None"
  proof
    assume N: "tokenNames t = None"
    with F obtain z where "f t = Some z"
      by (auto simp: Option.bind_eq_Some_conv)
    from IH [OF this] N show False by simp
  qed
qed

lemma TokenType_String_TokenName: "TokenType_String TokenName = None"
proof (cases "TokenType_String TokenName")
  case None
  then show ?thesis .
next
  case (Some y)
  then have "tokenNames TokenName \<noteq> None" by (rule TokenType_String_Some_named)
  then show ?thesis by (simp add: tokenNames_def)
qed

section \<open>The pending sequence of a stack\<close>

lemma stack_inv_NewStack: "stack_inv (NewStack lx)"
  by (simp add: stack_inv_def NewStack_def)

lemma stack_inv_Push: "stack_inv s \<Longrightarrow> stack_inv (Push s ts)"
  by (simp add: stack_inv_def Push_def)

lemma stack_inv_Pop: "stack_inv s \<Longrightarrow> stack_inv (snd (Pop s))"
  by (auto simp add: stack_inv_def Pop_def split: prod.splits)

lemma Pop_n_Suc: "Pop_n (Suc n) s = (fst (Pop s) # fst (Pop_n n (snd (Pop s))), snd (Pop_n n (snd (Pop s))))"
  by (simp split: prod.splits)

lemma Next_n_Suc: "Next_n (Suc n) lx = (fst (Next lx) # fst (Next_n n (snd (Next lx))), snd (Next_n n (snd (Next lx))))"
  by (simp split: prod.splits)

declare Pop_n.simps(2) [simp del] Next_n.simps(2) [simp del]
declare Pop_n_Suc [simp] Next_n_Suc [simp]

lemma length_Pop_n: "length (fst (Pop_n n s)) = n"
  by (induction n arbitrary: s) simp_all

lemma length_Next_n: "length (fst (Next_n n lx)) = n"
  by (induction n arbitrary: lx) simp_all

lemma stack_inv_Pop_n: "stack_inv s \<Longrightarrow> stack_inv (snd (Pop_n n s))"
proof (induction n arbitrary: s)
  case 0
  then show ?case by simp
next
  case (Suc n)
  from Suc.prems have "stack_inv (snd (Pop s))" by (rule stack_inv_Pop)
  then have "stack_inv (snd (Pop_n n (snd (Pop s))))" by (rule Suc.IH)
  then show ?case by (simp add: Pop_n_Suc)
qed

lemma Pop_n_pending:
  "stack_inv s \<Longrightarrow>
   fst (Pop_n n s) = take n (rev (take (count s) (tokens s))) @ fst (Next_n (n - count s) (lexer s))"
proof (induction n arbitrary: s)
  case 0
  then show ?case by simp
next
  case (Suc n)
  have inv1: "stack_inv (snd (Pop s))" using Suc.prems by (rule stack_inv_Pop)
  note IH = Suc.IH [OF inv1]
  show ?case
  proof (cases "count s")
    case 0
    then have P: "Pop s = (fst (Next (lexer s)), s\<lparr>lexer := snd (Next (lexer s))\<rparr>)"
      by (simp add: Pop_def split: prod.splits)
    show ?thesis
      using IH 0 by (simp add: Pop_n_Suc Next_n_Suc P)
  next
    case (Suc c)
    then have P: "Pop s = (tokens s ! c, s\<lparr>count := c\<rparr>)"
      by (simp add: Pop_def)
    from Suc Suc.prems have c: "c < length (tokens s)" by (simp add: stack_inv_def)
    show ?thesis
      using IH Suc c by (simp add: Pop_n_Suc P take_Suc_conv_app_nth)
  qed
qed

lemma Pop_n_NewStack: "fst (Pop_n n (NewStack lx)) = fst (Next_n n lx)"
  using Pop_n_pending [OF stack_inv_NewStack, of n lx] by (simp add: NewStack_def)

lemma Pop_n_Push:
  assumes "stack_inv s"
  shows "fst (Pop_n n (Push s ts)) = take n (rev ts) @ fst (Pop_n (n - length ts) s)"
proof -
  have inv: "stack_inv (Push s ts)" using assms by (rule stack_inv_Push)
  have len: "count s \<le> length (tokens s)" using assms by (simp add: stack_inv_def)
  have "fst (Pop_n n (Push s ts)) =
      take n (rev (take (count (Push s ts)) (tokens (Push s ts)))) @
      fst (Next_n (n - count (Push s ts)) (lexer (Push s ts)))"
    by (rule Pop_n_pending [OF inv])
  also have "\<dots> = take n (rev ts) @ (take (n - length ts) (rev (take (count s) (tokens s))) @
      fst (Next_n (n - length ts - count s) (lexer s)))"
    using len by (simp add: Push_def add.commute)
  also have "\<dots> = take n (rev ts) @ fst (Pop_n (n - length ts) s)"
    by (simp only: Pop_n_pending [OF assms])
  finally show ?thesis .
qed

lemma Pop_n_split:
  "fst (Pop_n n s) = take n (fst (Pop_n m s)) @ fst (Pop_n (n - m) (snd (Pop_n m s)))"
proof (induction m arbitrary: n s)
  case 0
  then show ?case by simp
next
  case (Suc m)
  show ?case
  proof (cases n)
    case 0
    then show ?thesis by simp
  next
    case (Suc k)
    show ?thesis
      unfolding Suc using Suc.IH [of k "snd (Pop s)"]
      by (simp add: Pop_n_Suc)
  qed
qed

lemma Next_n_prefix: "fst (Next_n a lx) = take a (fst (Next_n (a + b) lx))"
  by (induction a arbitrary: lx) (simp_all add: Next_n_Suc)

lemma Peek_loop_Pop_n:
  "i < length t \<Longrightarrow>
   Peek_loop i t s = (rev (fst (Pop_n (Suc i) s)) @ drop (Suc i) t, snd (Pop_n (Suc i) s))"
proof (induction i arbitrary: t s)
  case 0
  then show ?case
    by (cases t) (simp_all split: prod.splits)
next
  case (Suc i)
  obtain x s1 where P: "Pop s = (x, s1)" by (cases "Pop s")
  have "i < length (t[Suc i := x])" using Suc.prems by simp
  from Suc.IH [OF this, of s1]
  have IH: "Peek_loop i (t[Suc i := x]) s1 =
      (rev (fst (Pop_n (Suc i) s1)) @ drop (Suc i) (t[Suc i := x]), snd (Pop_n (Suc i) s1))" .
  have d: "drop (Suc i) (t[Suc i := x]) = x # drop (Suc (Suc i)) t"
    using Suc.prems by (simp add: drop_update_swap Cons_nth_drop_Suc [symmetric] flip: upd_conv_take_nth_drop)
  show ?case
    using P IH d by (simp add: Pop_n_Suc [of "Suc i"])
qed

section \<open>Peek, Match and Expect keep the pending sequence\<close>

lemma Peek_zero: "Peek s 0 = (Inr (fst (Pop s)), Push (snd (Pop s)) [fst (Pop s)])"
  by (simp add: Peek_def split: prod.splits)

lemma Pop_n_Pop_Push:
  assumes "stack_inv s"
  shows "fst (Pop_n n (Push (snd (Pop s)) [fst (Pop s)])) = fst (Pop_n n s)"
proof -
  have inv1: "stack_inv (snd (Pop s))" using assms by (rule stack_inv_Pop)
  have A: "fst (Pop_n n (Push (snd (Pop s)) [fst (Pop s)])) =
      take n (rev [fst (Pop s)]) @ fst (Pop_n (n - length [fst (Pop s)]) (snd (Pop s)))"
    by (rule Pop_n_Push [OF inv1])
  show ?thesis
    unfolding A by (cases n) simp_all
qed

lemma Peek_slow:
  assumes "0 < i" and "\<not> i < int (count s)"
  shows "Peek s i =
    (Inr (fst (Pop_n (Suc (nat i)) s) ! nat i),
     Push (snd (Pop_n (Suc (nat i)) s)) (rev (fst (Pop_n (Suc (nat i)) s))))"
proof -
  have "Peek_loop (nat i) (replicate (nat i + 1) zero_Token) s =
      (rev (fst (Pop_n (Suc (nat i)) s)) @ drop (Suc (nat i)) (replicate (nat i + 1) zero_Token),
       snd (Pop_n (Suc (nat i)) s))"
    by (rule Peek_loop_Pop_n) simp
  then have L: "Peek_loop (nat i) (replicate (nat i + 1) zero_Token) s =
      (rev (fst (Pop_n (Suc (nat i)) s)), snd (Pop_n (Suc (nat i)) s))"
    by simp
  have "rev (fst (Pop_n (Suc (nat i)) s)) ! 0 = fst (Pop_n (Suc (nat i)) s) ! nat i"
    using length_Pop_n [of "Suc (nat i)" s] by (subst rev_nth) simp_all
  then show ?thesis
    using assms unfolding Peek_def L by simp
qed

lemma stack_inv_Peek: "stack_inv s \<Longrightarrow> stack_inv (snd (Peek s i))"
proof -
  assume inv: "stack_inv s"
  consider "i = 0" | "0 < i" "i < int (count s)" | "0 < i" "\<not> i < int (count s)" | "i < 0"
    by linarith
  then show ?thesis
  proof cases
    case 1
    then show ?thesis by (simp add: Peek_zero stack_inv_Push stack_inv_Pop inv)
  next
    case 2
    then show ?thesis by (simp add: Peek_def inv)
  next
    case 3
    then show ?thesis by (simp add: Peek_slow stack_inv_Push stack_inv_Pop_n inv del: Pop_n_Suc)
  next
    case 4
    then show ?thesis by (simp add: Peek_def inv)
  qed
qed

lemma Pop_n_Peek: "stack_inv s \<Longrightarrow> fst (Pop_n n (snd (Peek s i))) = fst (Pop_n n s)"
proof -
  assume inv: "stack_inv s"
  consider "i = 0" | "0 < i" "i < int (count s)" | "0 < i" "\<not> i < int (count s)" | "i < 0"
    by linarith
  then show ?thesis
  proof cases
    case 1
    then show ?thesis by (simp add: Peek_zero Pop_n_Pop_Push inv)
  next
    case 2
    then show ?thesis by (simp add: Peek_def)
  next
    case 3
    have inv1: "stack_inv (snd (Pop_n (Suc (nat i)) s))" using inv by (rule stack_inv_Pop_n)
    have "fst (Pop_n n (snd (Peek s i))) =
        take n (fst (Pop_n (Suc (nat i)) s)) @
        fst (Pop_n (n - Suc (nat i)) (snd (Pop_n (Suc (nat i)) s)))"
      using length_Pop_n [of "Suc (nat i)" s]
      by (simp add: Peek_slow [OF 3] Pop_n_Push [OF inv1] del: Pop_n_Suc)
    also have "\<dots> = fst (Pop_n n s)"
      by (rule Pop_n_split [symmetric])
    finally show ?thesis .
  next
    case 4
    then show ?thesis by (simp add: Peek_def)
  qed
qed

lemma stack_inv_Match: "stack_inv s \<Longrightarrow> stack_inv (snd (Match s ty))"
  by (simp add: Match_def stack_inv_Pop stack_inv_Push split: prod.splits)
     (metis snd_conv stack_inv_Pop stack_inv_Push)

lemma stack_inv_Expect: "stack_inv s \<Longrightarrow> Expect s tys = Some (r, s1) \<Longrightarrow> stack_inv s1"
  by (auto simp add: Expect_def Let_def split: prod.splits if_splits option.splits)
     (metis snd_conv stack_inv_Pop stack_inv_Push)+

section \<open>Associativity\<close>

text \<open>
  C6. Run as \<^verbatim>\<open>TestParser\<close> runs it (the lexer of the tests, the package-level
  registries, \<^verbatim>\<open>Parse\<close>, then \<^verbatim>\<open>String\<close>), the source \<^verbatim>\<open>a + b - c\<close> renders as
  \<^verbatim>\<open>((a + b) - c)\<close>, \<^verbatim>\<open>a * b / c\<close> as \<^verbatim>\<open>((a * b) / c)\<close>, \<^verbatim>\<open>a ^ b ^ c\<close> as
  \<^verbatim>\<open>(a ^ (b ^ c))\<close> and \<^verbatim>\<open>a = b = c\<close> as \<^verbatim>\<open>(a = (b = c))\<close>: operators of equal
  precedence fold to the left, \<^verbatim>\<open>^\<close> and \<^verbatim>\<open>=\<close> to the right.
\<close>

theorem associativity_renderings:
  "test_render 20 ''a + b - c'' = Some ''((a + b) - c)'' \<and>
   test_render 20 ''a * b / c'' = Some ''((a * b) / c)'' \<and>
   test_render 20 ''a ^ b ^ c'' = Some ''(a ^ (b ^ c))'' \<and>
   test_render 20 ''a = b = c'' = Some ''(a = (b = c))''"
proof -
  have 1: "test_render 20 ''a + b - c'' = Some ''((a + b) - c)''" by code_simp
  have 2: "test_render 20 ''a * b / c'' = Some ''((a * b) / c)''" by code_simp
  have 3: "test_render 20 ''a ^ b ^ c'' = Some ''(a ^ (b ^ c))''" by code_simp
  have 4: "test_render 20 ''a = b = c'' = Some ''(a = (b = c))''" by code_simp
  from 1 2 3 4 show ?thesis by blast
qed

section \<open>Push and Pop\<close>

text \<open>
  C3, as the specification states it: pushing \<open>[a, b]\<close> and popping yields \<open>a\<close> first.
  On the empty stack over an exhausted source, with two distinct name tokens, the first
  pop does not yield \<open>a\<close>.
\<close>

theorem Push_Pop_order_counterexample:
  "fst (Pop (Push (NewStack (test_Lexer []))
              [\<lparr>Type = TokenName, Text = ''a''\<rparr>, \<lparr>Type = TokenName, Text = ''b''\<rparr>]))
   \<noteq> \<lparr>Type = TokenName, Text = ''a''\<rparr>"
  by code_simp

text \<open>
  C3, amended: the stack is last-in first-out, as its declaration says. On every stack
  that satisfies the invariant, after \<^verbatim>\<open>Push(a, b)\<close> the first pop yields \<open>b\<close>, the
  second yields \<open>a\<close>, and the pops that follow are those of the stack before the push.
\<close>

theorem Push_Pop_LIFO:
  assumes "stack_inv s"
  shows "fst (Pop (Push s [a, b])) = b \<and>
   fst (Pop (snd (Pop (Push s [a, b])))) = a \<and>
   fst (Pop_n n (snd (Pop (snd (Pop (Push s [a, b])))))) = fst (Pop_n n s)"
proof -
  have len: "count s \<le> length (tokens s)" using assms by (simp add: stack_inv_def)
  have P1: "Pop (Push s [a, b]) = (b, s\<lparr>tokens := take (count s) (tokens s) @ [a, b], count := Suc (count s)\<rparr>)"
    using len by (simp add: Pop_def Push_def nth_append)
  define s2 where "s2 = s\<lparr>tokens := take (count s) (tokens s) @ [a, b]\<rparr>"
  have P2: "Pop (s\<lparr>tokens := take (count s) (tokens s) @ [a, b], count := Suc (count s)\<rparr>)
      = (a, s2)"
    using len by (simp add: Pop_def nth_append s2_def)
  have inv2: "stack_inv s2"
    using len by (simp add: stack_inv_def s2_def)
  have "fst (Pop_n n s2) =
      take n (rev (take (count s2) (tokens s2))) @ fst (Next_n (n - count s2) (lexer s2))"
    by (rule Pop_n_pending [OF inv2])
  also have "\<dots> = take n (rev (take (count s) (tokens s))) @ fst (Next_n (n - count s) (lexer s))"
    using len by (simp add: s2_def)
  also have "\<dots> = fst (Pop_n n s)"
    by (rule Pop_n_pending [OF assms, symmetric])
  finally have P3: "fst (Pop_n n s2) = fst (Pop_n n s)" .
  show ?thesis by (simp add: P1 P2 P3)
qed

theorem Push_Pop_LIFO_witness:
  "stack_inv (NewStack (test_Lexer ''xy'')) \<and>
   fst (Pop (Push (NewStack (test_Lexer ''xy''))
     [\<lparr>Type = TokenName, Text = ''a''\<rparr>, \<lparr>Type = TokenPlus, Text = []\<rparr>])) =
     \<lparr>Type = TokenPlus, Text = []\<rparr> \<and>
   fst (Pop (snd (Pop (Push (NewStack (test_Lexer ''xy''))
     [\<lparr>Type = TokenName, Text = ''a''\<rparr>, \<lparr>Type = TokenPlus, Text = []\<rparr>])))) =
     \<lparr>Type = TokenName, Text = ''a''\<rparr> \<and>
   fst (Pop_n 3 (snd (Pop (snd (Pop (Push (NewStack (test_Lexer ''xy''))
     [\<lparr>Type = TokenName, Text = ''a''\<rparr>, \<lparr>Type = TokenPlus, Text = []\<rparr>])))))) =
     fst (Pop_n 3 (NewStack (test_Lexer ''xy'')))"
proof -
  have inv: "stack_inv (NewStack (test_Lexer ''xy''))"
    by (simp add: stack_inv_def NewStack_def)
  from inv Push_Pop_LIFO [OF inv, of "\<lparr>Type = TokenName, Text = ''a''\<rparr>"
      "\<lparr>Type = TokenPlus, Text = []\<rparr>" 3]
  show ?thesis by simp
qed

section \<open>Peek\<close>

text \<open>
  C4 at a state that two calls of \<^verbatim>\<open>Peek(1)\<close> reach. On a new stack over the source
  \<^verbatim>\<open>ab\<close>, \<^verbatim>\<open>Peek(1)\<close> returns \<open>b\<close>, the token at distance 1, and leaves the two tokens
  on the stack: two pops would yield \<open>a\<close>, then \<open>b\<close>. A second \<^verbatim>\<open>Peek(1)\<close> takes the
  branch \<^verbatim>\<open>index < s.count\<close> and returns \<^verbatim>\<open>s.tokens[1]\<close>, which is \<open>a\<close>, the token at
  distance 0.
\<close>

theorem Peek_indexed_from_bottom:
  "fst (Peek (NewStack (test_Lexer ''ab'')) 1) = Inr \<lparr>Type = TokenName, Text = ''b''\<rparr> \<and>
   fst (Pop_n 2 (snd (Peek (NewStack (test_Lexer ''ab'')) 1))) =
     [\<lparr>Type = TokenName, Text = ''a''\<rparr>, \<lparr>Type = TokenName, Text = ''b''\<rparr>] \<and>
   fst (Peek (snd (Peek (NewStack (test_Lexer ''ab'')) 1)) 1) =
     Inr \<lparr>Type = TokenName, Text = ''a''\<rparr>"
  by code_simp

section \<open>Expect without expected types\<close>

lemma Expect_empty:
  "Expect s [] =
     (case TokenType_String (Type (fst (Pop s))) of
        None \<Rightarrow> None
      | Some f \<Rightarrow>
          Some (Inl (StringValue (''expected token [] and found '' @ f)),
                Push (snd (Pop s)) [fst (Pop s)]))"
  by (simp add: Expect_def Expect_message_def TokenTypes_String_def Let_def
           split: prod.splits option.splits)

lemma Expect_empty_named:
  "tokenNames (Type (fst (Pop s))) = Some nm \<Longrightarrow>
   Expect s [] =
     Some (Inl (StringValue (''expected token [] and found '' @ nm)),
           Push (snd (Pop s)) [fst (Pop s)])"
  by (simp add: Expect_empty TokenType_String_named)

lemma Pop_name_token: "Type (fst (Pop (NewStack (test_Lexer ''a'')))) = TokenName"
  by code_simp

text \<open>
  C10 at a next token of type \<^verbatim>\<open>TokenName\<close>. \<^verbatim>\<open>Expect()\<close> pops the token, finds no
  expected type, pushes the token back and formats the message of the panic with
  \<^verbatim>\<open>t.Type\<close> under \<^verbatim>\<open>%s\<close>. \<^verbatim>\<open>TokenName\<close> has no entry in \<^verbatim>\<open>tokenNames\<close>, so
  \<^verbatim>\<open>TokenType.String\<close> calls itself without end and the panic is never raised. (For
  every type that has a name the panic is raised: \<open>Expect_empty_named\<close>.)
\<close>

theorem Expect_empty_on_name_does_not_return:
  "Expect (NewStack (test_Lexer ''a'')) [] = None"
  by (simp add: Expect_empty Pop_name_token TokenType_String_TokenName)

section \<open>Parse and recover\<close>

text \<open>
  C1 at the source \<^verbatim>\<open>)\<close>. \<^verbatim>\<open>parseExpression\<close> finds no prefix parser and panics, through
  \<^verbatim>\<open>errorf\<close>, with the string \<^verbatim>\<open>could not parse )\<close>. \<^verbatim>\<open>recover\<close> then evaluates
  \<^verbatim>\<open>e.(error)\<close> on that string, which is not an \<^verbatim>\<open>error\<close>: \<^verbatim>\<open>Parse\<close> does not return
  an error, it leaves with a panic whose value is a \<^verbatim>\<open>runtime.Error\<close>.
\<close>

theorem Parse_failure_is_not_returned:
  "map_option fst (parseExpression 20 (test_Parser '')'') 0) =
     Some (Inl (StringValue ''could not parse )'')) \<and>
   map_option fst (Parse 20 (test_Parser '')'')) =
     Some (Inl (RuntimeError ''interface conversion: interface {} is string, not error''))"
proof -
  have 1: "map_option fst (parseExpression 20 (test_Parser '')'') 0) =
      Some (Inl (StringValue ''could not parse )''))"
    by code_simp
  have 2: "map_option fst (Parse 20 (test_Parser '')'')) =
      Some (Inl (RuntimeError ''interface conversion: interface {} is string, not error''))"
    by code_simp
  from 1 2 show ?thesis by blast
qed

section \<open>The prefix registry of an instance\<close>

text \<open>
  C2 at two instances over the source \<^verbatim>\<open>a\<close>. The first is what \<^verbatim>\<open>NewParser\<close> builds:
  its prefix registry is empty. The second has a prefix registry that maps a name to
  \<^verbatim>\<open>GroupParser\<close>. Both return the node \<^verbatim>\<open>a\<close> of \<^verbatim>\<open>NameParser\<close>: the prefix lookup of
  \<^verbatim>\<open>parseExpression\<close> reads the package-level \<^verbatim>\<open>PrefixParsers\<close>, not the field.
\<close>

theorem prefix_lookup_ignores_instance_registry:
  "Parser_PrefixParsers (NewParser (NewStack (test_Lexer ''a''))) TokenName = None \<and>
   map_option fst (Parse 20 (NewParser (NewStack (test_Lexer ''a'')))) =
     Some (Inr (Some (NameNode ''a''), None)) \<and>
   map_option fst (Parse 20 ((NewParser (NewStack (test_Lexer ''a'')))
       \<lparr>Parser_PrefixParsers := [TokenName \<mapsto> GroupParser 0]\<rparr>)) =
     Some (Inr (Some (NameNode ''a''), None))"
proof -
  have 1: "Parser_PrefixParsers (NewParser (NewStack (test_Lexer ''a''))) TokenName = None"
    by (simp add: NewParser_def)
  have 2: "map_option fst (Parse 20 (NewParser (NewStack (test_Lexer ''a'')))) =
      Some (Inr (Some (NameNode ''a''), None))"
    by code_simp
  have 3: "map_option fst (Parse 20 ((NewParser (NewStack (test_Lexer ''a'')))
        \<lparr>Parser_PrefixParsers := [TokenName \<mapsto> GroupParser 0]\<rparr>)) =
      Some (Inr (Some (NameNode ''a''), None))"
    by code_simp
  from 1 2 3 show ?thesis by blast
qed

end
